theory Spec2Isabelle
  imports Main "HOL-Library.Word"
begin

section \<open>Text\<close>

text \<open>
  A Python \<open>str\<close> is a sequence of Unicode code points, so text is a list of code
  points (natural numbers).  \<open>ascii\<close> writes an ASCII literal of the source as such a
  list.
\<close>

type_synonym str = "nat list"

type_synonym bytes = "8 word list"

definition ascii :: "string \<Rightarrow> str" where
  "ascii s = map of_char s"

text \<open>
  \<open>str.isspace\<close> for one code point: the code points CPython treats as whitespace
  (U+0009..U+000D, U+001C..U+0020, U+0085, U+00A0, U+1680, U+2000..U+200A, U+2028,
  U+2029, U+202F, U+205F, U+3000).
\<close>

definition isspace :: "nat \<Rightarrow> bool" where
  "isspace c =
     ((9 \<le> c \<and> c \<le> 13) \<or> (28 \<le> c \<and> c \<le> 32) \<or> c = 133 \<or> c = 160 \<or> c = 5760 \<or>
      (8192 \<le> c \<and> c \<le> 8202) \<or> c = 8232 \<or> c = 8233 \<or> c = 8239 \<or> c = 8287 \<or>
      c = 12288)"

text \<open>\<open>s.strip()\<close>: whitespace removed at both ends.\<close>

definition strip :: "str \<Rightarrow> str" where
  "strip s = rev (dropWhile isspace (rev (dropWhile isspace s)))"

text \<open>\<open>s.startswith(p)\<close>.\<close>

definition startswith :: "str \<Rightarrow> str \<Rightarrow> bool" where
  "startswith s p = (take (length p) s = p)"

section \<open>Constants of the script\<close>

definition OPENAI_API_KEY :: str where
  "OPENAI_API_KEY = ascii ''OPENAI_API_KEY''"

text \<open>The persona prompt; the dash between 2 and 4 is U+2013.\<close>

definition SYSTEM_PROMPT :: str where
  "SYSTEM_PROMPT =
     ascii ''You are a calm, empathetic Indian wellness guide. '' @
     ascii ''Answer in 2'' @ [8211] @ ascii ''4 short sentences. Draw on meditation, pranayama, yoga, Ayurveda, '' @
     ascii ''and Indian spiritual wisdom in simple, practical language. '' @
     ascii ''Avoid medical claims; suggest consulting professionals for serious issues.''"

text \<open>The two options of the language selector, and the prefix the script tests for.\<close>

definition English_India :: str where
  "English_India = ascii ''English (India)''"

definition Hindi :: str where
  "Hindi = ascii ''Hindi''"


definition en :: str where
  "en = ascii ''en''"

definition hi :: str where
  "hi = ascii ''hi''"

definition co_in :: str where
  "co_in = ascii ''co.in''"

definition com :: str where
  "com = ascii ''com''"

section \<open>Inputs, environment and state\<close>

text \<open>An exception is identified by a description; nothing depends on its contents.\<close>

type_synonym exc = string

text \<open>The uploaded file: its name and the bytes \<open>read()\<close> returns.\<close>

record upload =
  name :: str
  read :: bytes

text \<open>
  The widget values of one run of the script.  \<open>audio_file\<close> is \<open>None\<close> when nothing
  was uploaded (an uploaded file object is always truthy); \<open>typed\<close> is the text field,
  empty when nothing was typed; \<open>run\<close> and \<open>clear\<close> are the two buttons.
\<close>

record inputs =
  audio_file :: "upload option"
  typed :: str
  lang_choice :: str
  run :: bool
  clear :: bool

text \<open>
  What the script is run against and cannot control:
  \<^item> \<open>environ\<close>: the process environment;
  \<^item> \<open>transcriptions_create\<close>: the remote transcription call (model \<open>whisper-1\<close>,
    temperature 0) on the bytes of the file, returning the text or raising;
  \<^item> \<open>completions_create\<close>: the remote completion call (model \<open>gpt-4o-mini\<close>,
    temperature 0.7, at most 250 tokens) on the message list, returning the content of
    the first choice or raising;
  \<^item> \<open>gTTS\<close>: the synthesis library called with text, language, top-level domain and
    the slow flag, returning the MP3 bytes or raising;
  \<^item> \<open>mktemp\<close>: the path of the file \<open>NamedTemporaryFile(delete=False, suffix=...)\<close>
    creates for an upload of the given name;
  \<^item> \<open>remove_fails\<close>: whether \<open>os.remove\<close> of a path raises.
  Creating and writing the temporary file is taken to succeed.
\<close>

record env =
  environ :: "str \<rightharpoonup> str"
  transcriptions_create :: "bytes \<Rightarrow> exc + str"
  completions_create :: "(str \<times> str) list \<Rightarrow> exc + str"
  gTTS :: "str \<Rightarrow> str \<Rightarrow> str \<Rightarrow> bool \<Rightarrow> exc + bytes"
  mktemp :: "str \<Rightarrow> str"
  remove_fails :: "str \<Rightarrow> bool"

text \<open>What a run does that can be observed, in order.\<close>

datatype block = Style | Banner | AskHeading | ChatOpen | UserBubble str | BotBubble str | ChatClose

datatype widget = FileUploader | TextInput | Selectbox | AskButton | ClearButton

datatype phase = Listening | Reflecting | Voicing

datatype event =
    SetPageConfig
  | Markdown block
  | EnvironGet str
  | StError
  | NewClient str
  | Widget widget
  | StWarning
  | Spinner phase
  | TempFile str
  | Transcribe str
  | Remove str
  | ChatResponse str
  | Synthesize str str bool
  | StAudio bytes
  | StInfo

text \<open>
  The state a run works on: \<open>session\<close> is \<open>st.session_state.chat_history\<close>
  (\<open>None\<close> while the key is not in the session state), \<open>files\<close> the file system,
  \<open>trace\<close> the events so far.
\<close>

record world =
  session :: "(str \<times> str) list option"
  files :: "str \<rightharpoonup> bytes"
  trace :: "event list"

text \<open>
  How a run of the script ends: it reaches the last line, \<open>st.stop()\<close>,
  \<open>st.experimental_rerun()\<close>, or an exception that nothing catches.
\<close>

datatype origin = Transcription | Completion | Synthesis | Script

datatype outcome = Completed | Stopped | Rerun | Raised origin exc

definition emit :: "event \<Rightarrow> world \<Rightarrow> world" where
  "emit e w = w\<lparr>trace := trace w @ [e]\<rparr>"

section \<open>The adapters\<close>

definition transcribe_with_whisper :: "env \<Rightarrow> (str \<rightharpoonup> bytes) \<Rightarrow> str \<Rightarrow> exc + str" where
  "transcribe_with_whisper env fs path =
     (case fs path of
        None \<Rightarrow> Inl ''FileNotFoundError''
      | Some f \<Rightarrow>
          (case transcriptions_create env f of
             Inl e \<Rightarrow> Inl e
           | Inr text \<Rightarrow> Inr (strip text)))"

definition chat_response :: "env \<Rightarrow> str \<Rightarrow> exc + str" where
  "chat_response env user_text =
     (case completions_create env
             [(ascii ''system'', SYSTEM_PROMPT), (ascii ''user'', user_text)] of
        Inl e \<Rightarrow> Inl e
      | Inr content \<Rightarrow> Inr (strip content))"

definition synthesize_gtts :: "env \<Rightarrow> str \<Rightarrow> str \<Rightarrow> bool \<Rightarrow> exc + bytes" where
  "synthesize_gtts env text lang_code indian_accent =
     (let tld = (if lang_code = en \<and> indian_accent then co_in else com)
      in gTTS env text lang_code tld False)"

section \<open>The script\<close>

text \<open>Lines 7 to 79: page settings, style sheet, banner.\<close>

definition page_header :: "world \<Rightarrow> world" where
  "page_header w = emit (Markdown Banner) (emit (Markdown Style) (emit SetPageConfig w))"

text \<open>
  Lines 90 to 95: the key is read; \<open>not OPENAI_KEY\<close> holds for \<open>None\<close> and for the
  empty string, and then the script reports the error and stops.
\<close>

definition openai_setup :: "env \<Rightarrow> world \<Rightarrow> outcome option \<times> world" where
  "openai_setup env w =
     (let OPENAI_KEY = environ env OPENAI_API_KEY;
          w1 = emit (EnvironGet OPENAI_API_KEY) w
      in case OPENAI_KEY of
           None \<Rightarrow> (Some Stopped, emit StError w1)
         | Some k \<Rightarrow>
             if k = [] then (Some Stopped, emit StError w1)
             else (None, emit (NewClient k) w1))"

text \<open>Lines 128 to 132: the heading and the four input widgets.\<close>

definition main_widgets :: "world \<Rightarrow> world" where
  "main_widgets w =
     emit (Widget AskButton) (emit (Widget Selectbox) (emit (Widget TextInput)
       (emit (Widget FileUploader) (emit (Markdown AskHeading) w))))"

text \<open>Lines 135 and 136.\<close>

definition init_history :: "world \<Rightarrow> world" where
  "init_history w = (case session w of None \<Rightarrow> w\<lparr>session := Some []\<rparr> | Some h \<Rightarrow> w)"

text \<open>Lines 138 to 140.\<close>

definition clear_chat :: "inputs \<Rightarrow> world \<Rightarrow> outcome option \<times> world" where
  "clear_chat inp w =
     (let w1 = emit (Widget ClearButton) w
      in if clear inp then (Some Rerun, w1\<lparr>session := Some []\<rparr>) else (None, w1))"

text \<open>\<open>os.remove\<close> inside \<open>try ... except Exception: pass\<close> (lines 157 to 160).\<close>

definition os_remove :: "env \<Rightarrow> str \<Rightarrow> world \<Rightarrow> world" where
  "os_remove env path w =
     (let w1 = emit (Remove path) w
      in if remove_fails env path then w1 else w1\<lparr>files := (files w1)(path := None)\<rparr>)"

text \<open>
  Lines 150 to 160: the upload is written to a temporary file, the file is transcribed,
  and the \<open>finally\<close> block removes it before the result or the exception goes on.
\<close>

definition listen :: "env \<Rightarrow> upload \<Rightarrow> world \<Rightarrow> (exc + str) \<times> world" where
  "listen env a w =
     (let tmp_path = mktemp env (name a);
          w1 = emit (TempFile tmp_path) (w\<lparr>files := (files w)(tmp_path \<mapsto> read a)\<rparr>);
          w2 = emit (Transcribe tmp_path) w1;
          r = transcribe_with_whisper env (files w2) tmp_path
      in (r, os_remove env tmp_path w2))"

text \<open>
  Lines 143 to 165.  The result is \<open>None\<close> when the script goes on to the next line
  after the block.
\<close>

definition ask :: "env \<Rightarrow> inputs \<Rightarrow> world \<Rightarrow> outcome option \<times> world" where
  "ask env inp w =
     (if \<not> run inp then (None, w)
      else if audio_file inp = None \<and> typed inp = [] then (Some Stopped, emit StWarning w)
      else
        (let typed_text = (if typed inp \<noteq> [] then strip (typed inp) else []);
             (r, w1) =
               (case audio_file inp of
                  None \<Rightarrow> (Inr typed_text, w)
                | Some a \<Rightarrow> listen env a (emit (Spinner Listening) w))
         in case r of
              Inl e \<Rightarrow> (Some (Raised Transcription e), w1)
            | Inr user_text \<Rightarrow>
                (let w2 = emit (ChatResponse user_text) (emit (Spinner Reflecting) w1)
                 in case chat_response env user_text of
                      Inl e \<Rightarrow> (Some (Raised Completion e), w2)
                    | Inr bot_text \<Rightarrow>
                        (case session w2 of
                           None \<Rightarrow> (Some (Raised Script ''AttributeError''), w2)
                         | Some h \<Rightarrow>
                             (None, w2\<lparr>session := Some (h @ [(user_text, bot_text)])\<rparr>)))))"

text \<open>Lines 168 to 174.\<close>

definition display :: "world \<Rightarrow> outcome option \<times> world" where
  "display w =
     (let w1 = emit (Markdown ChatOpen) w
      in case session w1 of
           None \<Rightarrow> (Some (Raised Script ''AttributeError''), w1)
         | Some h \<Rightarrow>
             (None,
              emit (Markdown ChatClose)
                (fold (\<lambda>(user_msg, bot_msg) v.
                         emit (Markdown (BotBubble bot_msg)) (emit (Markdown (UserBubble user_msg)) v))
                   h w1)))"

text \<open>Lines 177 to 184.\<close>

definition voice_output :: "env \<Rightarrow> inputs \<Rightarrow> world \<Rightarrow> outcome option \<times> world" where
  "voice_output env inp w =
     (case session w of
        None \<Rightarrow> (Some (Raised Script ''AttributeError''), w)
      | Some h \<Rightarrow>
          if h = [] then (None, w)
          else
            (let last_bot_text = snd (last h);
                 w1 = emit (Spinner Voicing) w;
                 (r, w2) =
                   (if startswith (lang_choice inp) Hindi
                    then (synthesize_gtts env last_bot_text hi True,
                          emit (Synthesize last_bot_text hi True) w1)
                    else (synthesize_gtts env last_bot_text en True,
                          emit (Synthesize last_bot_text en True) w1))
             in case r of
                  Inl e \<Rightarrow> (Some (Raised Synthesis e), w2)
                | Inr audio_fp \<Rightarrow> (None, emit (StAudio audio_fp) w2)))"

text \<open>
  The blocks of the script run one after the other; a block that stops, reruns or raises
  ends the run, and the blocks after it are not reached.
\<close>

definition and_then ::
  "outcome option \<times> world \<Rightarrow> (world \<Rightarrow> outcome option \<times> world) \<Rightarrow> outcome option \<times> world" where
  "and_then r f = (case r of (Some out, w) \<Rightarrow> (Some out, w) | (None, w) \<Rightarrow> f w)"

text \<open>The last line (186) and the end of the run.\<close>

definition finish :: "outcome option \<times> world \<Rightarrow> outcome \<times> world" where
  "finish r = (case r of (Some out, w) \<Rightarrow> (out, w) | (None, w) \<Rightarrow> (Completed, emit StInfo w))"

text \<open>One run of the whole script, top to bottom.\<close>

definition script :: "env \<Rightarrow> inputs \<Rightarrow> world \<Rightarrow> outcome \<times> world" where
  "script env inp w =
     finish
       (and_then
         (and_then
           (and_then
             (and_then (openai_setup env (page_header w))
                (\<lambda>v. clear_chat inp (init_history (main_widgets v))))
             (ask env inp))
           display)
         (voice_output env inp))"

section \<open>Vocabulary of the properties\<close>

text \<open>The turns of the session log; a log that was never created has none.\<close>

definition turns :: "world \<Rightarrow> (str \<times> str) list" where
  "turns w = (case session w of None \<Rightarrow> [] | Some h \<Rightarrow> h)"

text \<open>The events of a run that started in \<open>w\<close> and ended in \<open>w'\<close>.\<close>

definition new_events :: "world \<Rightarrow> world \<Rightarrow> event list" where
  "new_events w w' = drop (length (trace w)) (trace w')"

text \<open>The key is set and not empty.\<close>

definition key_ok :: "env \<Rightarrow> bool" where
  "key_ok env = (case environ env OPENAI_API_KEY of None \<Rightarrow> False | Some k \<Rightarrow> k \<noteq> [])"

fun is_adapter_call :: "event \<Rightarrow> bool" where
  "is_adapter_call (Transcribe p) = True"
| "is_adapter_call (ChatResponse u) = True"
| "is_adapter_call (Synthesize t l a) = True"
| "is_adapter_call e = False"

fun is_synthesis :: "event \<Rightarrow> bool" where
  "is_synthesis (Synthesize t l a) = True"
| "is_synthesis e = False"

fun is_environ_get :: "event \<Rightarrow> bool" where
  "is_environ_get (EnvironGet k) = True"
| "is_environ_get e = False"

text \<open>
  \<open>ext P w w'\<close>: the trace of \<open>w'\<close> is the trace of \<open>w\<close> followed by events that all
  satisfy \<open>P\<close>.
\<close>

definition ext :: "(event \<Rightarrow> bool) \<Rightarrow> world \<Rightarrow> world \<Rightarrow> bool" where
  "ext P w w' = (take (length (trace w)) (trace w') = trace w \<and> list_all P (new_events w w'))"

text \<open>
  The events up to the key check, and the events up to the clear button of a run that
  got past the check.  \<open>entry env w\<close> is the state in which line 143 is reached in such
  a run when the clear button was not pressed.
\<close>

definition header_events :: "event list" where
  "header_events = [SetPageConfig, Markdown Style, Markdown Banner, EnvironGet OPENAI_API_KEY]"

definition entry_events :: "env \<Rightarrow> event list" where
  "entry_events env =
     header_events @
       [NewClient (case environ env OPENAI_API_KEY of None \<Rightarrow> [] | Some k \<Rightarrow> k),
        Markdown AskHeading, Widget FileUploader, Widget TextInput, Widget Selectbox,
        Widget AskButton, Widget ClearButton]"

definition entry :: "env \<Rightarrow> world \<Rightarrow> world" where
  "entry env w =
     emit (Widget ClearButton) (init_history (main_widgets
       (emit (NewClient (case environ env OPENAI_API_KEY of None \<Rightarrow> [] | Some k \<Rightarrow> k))
          (emit (EnvironGet OPENAI_API_KEY) (page_header w)))))"

section \<open>Concrete runs\<close>

text \<open>An environment where the key is set and every remote call succeeds.\<close>

definition env_ok :: env where
  "env_ok =
     \<lparr>environ = [OPENAI_API_KEY \<mapsto> ascii ''sk-test''],
      transcriptions_create = (\<lambda>f. Inr (ascii '' I cannot sleep '')),
      completions_create = (\<lambda>m. Inr (ascii '' Try slow breathing. '')),
      gTTS = (\<lambda>t l d s. Inr [73, 68, 51]),
      mktemp = (\<lambda>n. ascii ''/tmp/tmpq1.wav''),
      remove_fails = (\<lambda>p. False)\<rparr>"

text \<open>Variations: no key, an empty key, a failing remote call, a removal that fails.\<close>

definition env_no_key :: env where
  "env_no_key = env_ok\<lparr>environ := Map.empty\<rparr>"

definition env_empty_key :: env where
  "env_empty_key = env_ok\<lparr>environ := [OPENAI_API_KEY \<mapsto> []]\<rparr>"

definition env_whisper_down :: env where
  "env_whisper_down = env_ok\<lparr>transcriptions_create := (\<lambda>f. Inl ''APIConnectionError'')\<rparr>"

definition env_chat_down :: env where
  "env_chat_down = env_ok\<lparr>completions_create := (\<lambda>m. Inl ''RateLimitError'')\<rparr>"

definition env_silent :: env where
  "env_silent = env_ok\<lparr>transcriptions_create := (\<lambda>f. Inr [])\<rparr>"

definition env_locked :: env where
  "env_locked = env_ok\<lparr>remove_fails := (\<lambda>p. True)\<rparr>"

text \<open>The scenario of the specification; the dash of the reply is U+2014.\<close>

definition exam_reply :: str where
  "exam_reply =
     ascii ''Breathe slowly for four counts, hold, then release '' @ [8212] @
     ascii '' this calms the nervous system. Try this before your exam.''"

definition env_exam :: env where
  "env_exam = env_ok\<lparr>completions_create := (\<lambda>m. Inr exam_reply)\<rparr>"

text \<open>A session with one earlier turn, and a fresh one.\<close>

definition w_one :: world where
  "w_one = \<lparr>session = Some [(ascii ''hello'', ascii ''Namaste.'')], files = Map.empty, trace = []\<rparr>"

definition w_new :: world where
  "w_new = \<lparr>session = None, files = Map.empty, trace = []\<rparr>"

text \<open>Widget values: nothing entered and no button pressed, and the ask button pressed
  with nothing, with typed text, and with an upload.\<close>

definition idle :: inputs where
  "idle = \<lparr>audio_file = None, typed = [], lang_choice = English_India, run = False, clear = False\<rparr>"

definition ask_nothing :: inputs where
  "ask_nothing = idle\<lparr>run := True\<rparr>"

definition ask_padded :: inputs where
  "ask_padded = idle\<lparr>typed := ascii '' hi'', run := True\<rparr>"

definition ask_exam :: inputs where
  "ask_exam = idle\<lparr>typed := ascii ''I feel anxious before exams'', run := True\<rparr>"

definition ask_hindi :: inputs where
  "ask_hindi = idle\<lparr>typed := ascii ''hi'', lang_choice := Hindi, run := True\<rparr>"

definition clip :: upload where
  "clip = \<lparr>name = ascii ''voice.wav'', read = [82, 73, 70, 70]\<rparr>"

definition ask_clip :: inputs where
  "ask_clip = idle\<lparr>audio_file := Some clip, typed := ascii ''ignored'', run := True\<rparr>"

section \<open>Basic facts\<close>

text \<open>The definitions a concrete run is evaluated with.\<close>

lemmas run_defs =
  script_def openai_setup_def page_header_def main_widgets_def init_history_def
  clear_chat_def ask_def listen_def os_remove_def transcribe_with_whisper_def chat_response_def
  display_def voice_output_def synthesize_gtts_def emit_def and_then_def finish_def
  new_events_def turns_def key_ok_def startswith_def strip_def isspace_def ascii_def
  OPENAI_API_KEY_def English_India_def Hindi_def en_def hi_def co_in_def com_def Let_def

lemmas example_defs =
  env_ok_def env_no_key_def env_empty_key_def env_whisper_down_def env_chat_down_def
  env_silent_def env_locked_def env_exam_def exam_reply_def w_one_def w_new_def idle_def
  ask_nothing_def ask_padded_def ask_exam_def ask_hindi_def clip_def ask_clip_def

lemma emit_simps [simp]:
  "trace (emit e w) = trace w @ [e]"
  "session (emit e w) = session w"
  "files (emit e w) = files w"
  by (simp_all add: emit_def)

lemma and_then_simps [simp]:
  "and_then (Some out, w) f = (Some out, w)"
  "and_then (None, w) f = f w"
  by (simp_all add: and_then_def)

lemma finish_simps [simp]:
  "finish (Some out, w) = (out, w)"
  "finish (None, w) = (Completed, emit StInfo w)"
  by (simp_all add: finish_def)

lemma new_events_append: "trace w' = trace w @ evs \<Longrightarrow> new_events w w' = evs"
  by (simp add: new_events_def)

text \<open>The bubbles of the chat display only add events.\<close>

lemma bubbles_fold:
  "session (fold (\<lambda>(user_msg, bot_msg) v.
       emit (Markdown (BotBubble bot_msg)) (emit (Markdown (UserBubble user_msg)) v)) h w) = session w
   \<and> files (fold (\<lambda>(user_msg, bot_msg) v.
       emit (Markdown (BotBubble bot_msg)) (emit (Markdown (UserBubble user_msg)) v)) h w) = files w
   \<and> trace (fold (\<lambda>(user_msg, bot_msg) v.
       emit (Markdown (BotBubble bot_msg)) (emit (Markdown (UserBubble user_msg)) v)) h w)
     = trace w @ concat (map (\<lambda>(u, b). [Markdown (UserBubble u), Markdown (BotBubble b)]) h)"
  by (induction h arbitrary: w) (auto split: prod.splits)

subsection \<open>Trimming\<close>

lemma strip_nonempty_iff: "strip s \<noteq> [] \<longleftrightarrow> (\<exists>c \<in> set s. \<not> isspace c)"
proof -
  have "strip s = [] \<longleftrightarrow> dropWhile isspace (rev (dropWhile isspace s)) = []"
    by (simp add: strip_def)
  also have "\<dots> \<longleftrightarrow> (\<forall>c \<in> set (dropWhile isspace s). isspace c)"
    by (simp add: dropWhile_eq_Nil_conv)
  also have "\<dots> \<longleftrightarrow> dropWhile isspace s = []"
  proof
    assume a: "\<forall>c \<in> set (dropWhile isspace s). isspace c"
    show "dropWhile isspace s = []"
    proof (rule ccontr)
      assume n: "dropWhile isspace s \<noteq> []"
      then have "\<not> isspace (hd (dropWhile isspace s))" by (rule hd_dropWhile)
      moreover have "hd (dropWhile isspace s) \<in> set (dropWhile isspace s)" using n by simp
      ultimately show False using a by blast
    qed
  next
    assume "dropWhile isspace s = []"
    then show "\<forall>c \<in> set (dropWhile isspace s). isspace c" by (metis empty_iff empty_set)
  qed
  also have "\<dots> \<longleftrightarrow> (\<forall>c \<in> set s. isspace c)"
    by (simp add: dropWhile_eq_Nil_conv)
  finally show ?thesis by blast
qed

lemma strip_nonemptyI: "c \<in> set s \<Longrightarrow> \<not> isspace c \<Longrightarrow> strip s = [] \<Longrightarrow> False"
  using strip_nonempty_iff [of s] by blast

lemma strip_id:
  assumes "s \<noteq> []" and "\<not> isspace (hd s)" and "\<not> isspace (last s)"
  shows "strip s = s"
proof -
  have 1: "dropWhile isspace s = s"
    using assms(1,2) by (cases s) simp_all
  have "rev s \<noteq> []" and "\<not> isspace (hd (rev s))"
    using assms(1,3) by (simp_all add: hd_rev)
  then have "dropWhile isspace (rev s) = rev s"
    by (cases "rev s") simp_all
  then show ?thesis by (simp add: strip_def 1)
qed

subsection \<open>Growing traces\<close>

lemma ext_iff: "ext P w w' \<longleftrightarrow> (\<exists>evs. trace w' = trace w @ evs \<and> list_all P evs)"
proof
  assume "ext P w w'"
  then have "trace w' = trace w @ new_events w w' \<and> list_all P (new_events w w')"
    unfolding ext_def new_events_def by (metis append_take_drop_id)
  then show "\<exists>evs. trace w' = trace w @ evs \<and> list_all P evs" by blast
next
  assume "\<exists>evs. trace w' = trace w @ evs \<and> list_all P evs"
  then show "ext P w w'" by (auto simp: ext_def new_events_def)
qed

lemma ext_refl [simp]: "ext P w w"
  by (simp add: ext_iff)

lemma ext_trans: "ext P w w' \<Longrightarrow> ext P w' w'' \<Longrightarrow> ext P w w''"
  by (auto simp: ext_iff)

lemma ext_emit: "P e \<Longrightarrow> ext P w v \<Longrightarrow> ext P w (emit e v)"
  by (auto simp: ext_iff)

lemma ext_session_update [simp]: "ext P w (v\<lparr>session := s\<rparr>) = ext P w v"
  by (simp add: ext_def new_events_def)

lemma ext_files_update [simp]: "ext P w (v\<lparr>files := s\<rparr>) = ext P w v"
  by (simp add: ext_def new_events_def)

lemma ext_and_then:
  assumes "ext P w (snd r)" and "\<And>v. ext P v (snd (f v))"
  shows "ext P w (snd (and_then r f))"
proof (cases r)
  case (Pair out v)
  show ?thesis
  proof (cases out)
    case None
    then show ?thesis using Pair assms(1) assms(2) [of v] by (auto intro: ext_trans)
  next
    case (Some a)
    then show ?thesis using Pair assms(1) by simp
  qed
qed

lemma ext_finish:
  assumes "ext P w (snd r)" and "P StInfo"
  shows "ext P w (snd (finish r))"
  using assms by (cases r) (auto simp: finish_def intro: ext_emit split: option.splits)

lemma ext_new_events: "ext P w w' \<Longrightarrow> e \<in> set (new_events w w') \<Longrightarrow> P e"
  by (auto simp: ext_def list_all_iff)

lemma ext_fold_bubbles:
  assumes "\<And>b. P (Markdown b)" and "ext P w v"
  shows "ext P w (fold (\<lambda>(user_msg, bot_msg) v.
       emit (Markdown (BotBubble bot_msg)) (emit (Markdown (UserBubble user_msg)) v)) h v)"
  using assms(2) by (induction h arbitrary: v) (auto intro!: ext_emit assms(1) split: prod.splits)

lemma ext_clear_chat:
  assumes "\<And>b. P (Markdown b)" and "\<And>x. P (Widget x)"
  shows "ext P w (snd (clear_chat inp (init_history (main_widgets w))))"
  by (simp add: clear_chat_def init_history_def main_widgets_def Let_def ext_emit assms
           split: option.splits)

lemma ext_listen:
  assumes "\<And>p. P (TempFile p)" and "\<And>p. P (Transcribe p)" and "\<And>p. P (Remove p)"
  shows "ext P w (snd (listen env a w))"
proof -
  have "ext P w (emit (Transcribe (mktemp env (name a)))
          (emit (TempFile (mktemp env (name a)))
             (w\<lparr>files := (files w)(mktemp env (name a) \<mapsto> read a)\<rparr>)))"
    by (intro ext_emit assms) simp
  then show ?thesis
    by (simp add: listen_def os_remove_def Let_def ext_emit assms)
qed

lemma ext_display:
  assumes "\<And>b. P (Markdown b)"
  shows "ext P w (snd (display w))"
  by (simp add: display_def Let_def ext_emit ext_fold_bubbles assms split: option.splits)

lemma ext_voice_output:
  assumes "\<And>ph. P (Spinner ph)" and "\<And>b. P (StAudio b)"
    and "\<And>t. P (Synthesize t (if startswith (lang_choice inp) Hindi then hi else en) True)"
  shows "ext P w (snd (voice_output env inp w))"
  using assms(3)
  by (auto simp: voice_output_def Let_def assms(1,2) intro!: ext_emit
           split: option.splits sum.splits if_splits)

section \<open>The blocks of the script\<close>

subsection \<open>Which blocks touch the log and the files\<close>

lemma session_page_header [simp]: "session (page_header w) = session w"
  by (simp add: page_header_def)

lemma session_main_widgets [simp]: "session (main_widgets w) = session w"
  by (simp add: main_widgets_def)

lemma session_openai_setup [simp]: "session (snd (openai_setup env w)) = session w"
  by (simp add: openai_setup_def Let_def split: option.splits)

lemma session_listen [simp]: "session (snd (listen env a w)) = session w"
  by (simp add: listen_def os_remove_def Let_def)

lemma session_display [simp]: "session (snd (display w)) = session w"
  by (simp add: display_def Let_def bubbles_fold split: option.splits)

lemma session_voice_output [simp]: "session (snd (voice_output env inp w)) = session w"
  by (simp add: voice_output_def Let_def split: option.splits sum.splits prod.splits)

lemma session_snd_and_then:
  assumes "\<And>v. session (snd (f v)) = session v"
  shows "session (snd (and_then r f)) = session (snd r)"
  using assms by (cases r) (auto simp: and_then_def split: option.splits)

lemma session_snd_finish [simp]: "session (snd (finish r)) = session (snd r)"
  by (cases r) (auto simp: finish_def split: option.splits)

lemma session_after_ask:
  "session (snd (and_then (and_then r display) (voice_output env inp))) = session (snd r)"
  by (simp add: session_snd_and_then)

lemma files_display [simp]: "files (snd (display w)) = files w"
  by (simp add: display_def Let_def bubbles_fold split: option.splits)

lemma files_voice_output [simp]: "files (snd (voice_output env inp w)) = files w"
  by (simp add: voice_output_def Let_def split: option.splits sum.splits prod.splits)

lemma files_snd_and_then:
  assumes "\<And>v. files (snd (f v)) = files v"
  shows "files (snd (and_then r f)) = files (snd r)"
  using assms by (cases r) (auto simp: and_then_def split: option.splits)

lemma files_snd_finish [simp]: "files (snd (finish r)) = files (snd r)"
  by (cases r) (auto simp: finish_def split: option.splits)

lemma trace_after_ask:
  "\<exists>evs. trace (snd (finish (and_then (and_then r display) (voice_output env inp))))
           = trace (snd r) @ evs"
proof -
  have "ext (\<lambda>e. True) (snd r) (snd (finish (and_then (and_then r display) (voice_output env inp))))"
    by (intro ext_finish ext_and_then ext_display ext_voice_output) simp_all
  then show ?thesis by (auto simp: ext_iff)
qed

subsection \<open>The run up to line 143\<close>

lemma trace_init_history [simp]: "trace (init_history w) = trace w"
  by (simp add: init_history_def split: option.splits)

lemma files_init_history [simp]: "files (init_history w) = files w"
  by (simp add: init_history_def split: option.splits)

lemma session_init_history [simp]: "session (init_history w) = Some (turns w)"
  by (simp add: init_history_def turns_def split: option.splits)

lemma entry_simps [simp]:
  "session (entry env w) = Some (turns w)"
  "files (entry env w) = files w"
  "trace (entry env w) = trace w @ entry_events env"
  by (simp_all add: entry_def main_widgets_def page_header_def header_events_def
                    entry_events_def turns_def)

lemma no_synthesis_entry: "\<forall>ev \<in> set (entry_events env). \<not> is_synthesis ev"
  by (simp add: entry_events_def header_events_def)

lemma no_adapter_entry: "\<forall>ev \<in> set (entry_events env). \<not> is_adapter_call ev"
  by (simp add: entry_events_def header_events_def)

lemma script_missing_key:
  assumes "\<not> key_ok env"
  shows "script env inp w = (Stopped, w\<lparr>trace := trace w @ header_events @ [StError]\<rparr>)"
  using assms
  by (simp add: script_def openai_setup_def page_header_def key_ok_def emit_def Let_def
                header_events_def split: option.splits)

lemma script_key_ok:
  assumes "key_ok env"
  shows "script env inp w =
           finish (and_then (and_then (and_then
             (clear_chat inp (init_history (main_widgets
                (emit (NewClient (case environ env OPENAI_API_KEY of None \<Rightarrow> [] | Some k \<Rightarrow> k))
                   (emit (EnvironGet OPENAI_API_KEY) (page_header w))))))
             (ask env inp)) display) (voice_output env inp))"
  using assms
  by (simp add: script_def openai_setup_def key_ok_def Let_def split: option.splits)

lemma script_entry:
  assumes "key_ok env" and "\<not> clear inp"
  shows "script env inp w =
           finish (and_then (and_then (ask env inp (entry env w)) display) (voice_output env inp))"
  using assms(2) by (simp add: script_key_ok [OF assms(1)] clear_chat_def entry_def Let_def)

subsection \<open>Listening and asking\<close>

lemma listen_fst:
  "fst (listen env a w) =
     transcribe_with_whisper env ((files w)(mktemp env (name a) \<mapsto> read a)) (mktemp env (name a))"
  by (simp add: listen_def Let_def)

lemma listen_result:
  "fst (listen env a w) =
     (case transcriptions_create env (read a) of Inl e \<Rightarrow> Inl e | Inr text \<Rightarrow> Inr (strip text))"
  by (simp add: listen_def transcribe_with_whisper_def Let_def)

lemma listen_trace:
  "trace (snd (listen env a w)) =
     trace w @ [TempFile (mktemp env (name a)), Transcribe (mktemp env (name a)),
                Remove (mktemp env (name a))]"
  by (simp add: listen_def os_remove_def Let_def)

lemma listen_files:
  "files (snd (listen env a w)) =
     (if remove_fails env (mktemp env (name a))
      then (files w)(mktemp env (name a) \<mapsto> read a)
      else (files w)(mktemp env (name a) := None))"
  by (simp add: listen_def os_remove_def Let_def)

lemma ask_typed:
  assumes "run inp" and "audio_file inp = None" and "typed inp \<noteq> []"
  shows "ask env inp v =
     (case chat_response env (strip (typed inp)) of
        Inl e \<Rightarrow> (Some (Raised Completion e),
                  emit (ChatResponse (strip (typed inp))) (emit (Spinner Reflecting) v))
      | Inr bot_text \<Rightarrow>
          (case session v of
             None \<Rightarrow> (Some (Raised Script ''AttributeError''),
                       emit (ChatResponse (strip (typed inp))) (emit (Spinner Reflecting) v))
           | Some h \<Rightarrow>
               (None, (emit (ChatResponse (strip (typed inp))) (emit (Spinner Reflecting) v))
                        \<lparr>session := Some (h @ [(strip (typed inp), bot_text)])\<rparr>)))"
  using assms by (simp add: ask_def Let_def split: sum.splits option.splits)

lemma ask_audio:
  assumes "run inp" and "audio_file inp = Some a"
  shows "ask env inp v =
     (case fst (listen env a (emit (Spinner Listening) v)) of
        Inl e \<Rightarrow> (Some (Raised Transcription e), snd (listen env a (emit (Spinner Listening) v)))
      | Inr user_text \<Rightarrow>
          (case chat_response env user_text of
             Inl e \<Rightarrow> (Some (Raised Completion e),
                       emit (ChatResponse user_text)
                         (emit (Spinner Reflecting) (snd (listen env a (emit (Spinner Listening) v)))))
           | Inr bot_text \<Rightarrow>
               (case session v of
                  None \<Rightarrow> (Some (Raised Script ''AttributeError''),
                            emit (ChatResponse user_text)
                              (emit (Spinner Reflecting) (snd (listen env a (emit (Spinner Listening) v)))))
                | Some h \<Rightarrow>
                    (None, (emit (ChatResponse user_text)
                              (emit (Spinner Reflecting) (snd (listen env a (emit (Spinner Listening) v)))))
                             \<lparr>session := Some (h @ [(user_text, bot_text)])\<rparr>))))"
  using assms by (simp add: ask_def Let_def case_prod_beta split: sum.splits option.splits)

lemma files_ask_audio:
  assumes "run inp" and "audio_file inp = Some a"
  shows "files (snd (ask env inp v)) = files (snd (listen env a (emit (Spinner Listening) v)))"
  by (simp add: ask_audio [OF assms] split: sum.splits option.splits)

lemma turns_ask:
  "turns (snd (ask env inp w)) = turns w \<or> (\<exists>t. turns (snd (ask env inp w)) = turns w @ [t])"
proof (cases "audio_file inp")
  case None
  then show ?thesis
    by (simp add: ask_def turns_def Let_def split: sum.splits option.splits)
next
  case (Some a)
  obtain r w1 where l: "listen env a (emit (Spinner Listening) w) = (r, w1)"
    by (cases "listen env a (emit (Spinner Listening) w)")
  have "session w1 = session w"
    using session_listen [of env a "emit (Spinner Listening) w"] l by simp
  then show ?thesis using Some l
    by (simp add: ask_def turns_def Let_def split: sum.splits option.splits)
qed

lemma turns_clear_chat:
  "(fst (clear_chat inp (init_history (main_widgets v))) = None \<and>
      turns (snd (clear_chat inp (init_history (main_widgets v)))) = turns v)
   \<or> (fst (clear_chat inp (init_history (main_widgets v))) \<noteq> None \<and>
      turns (snd (clear_chat inp (init_history (main_widgets v)))) = [])"
  by (simp add: clear_chat_def init_history_def turns_def Let_def split: option.splits)

lemma ext_ask:
  assumes "P StWarning" and "\<And>ph. P (Spinner ph)" and "\<And>p. P (TempFile p)"
    and "\<And>p. P (Transcribe p)" and "\<And>p. P (Remove p)"
    and typed: "audio_file inp = None \<Longrightarrow> typed inp \<noteq> [] \<Longrightarrow> P (ChatResponse (strip (typed inp)))"
    and audio: "\<And>a raw. audio_file inp = Some a \<Longrightarrow> transcriptions_create env (read a) = Inr raw
                  \<Longrightarrow> P (ChatResponse (strip raw))"
  shows "ext P w (snd (ask env inp w))"
proof (cases "audio_file inp")
  case None
  then show ?thesis using typed
    by (auto simp: ask_def Let_def assms(1,2) intro!: ext_emit split: sum.splits option.splits)
next
  case (Some a)
  obtain r w1 where l: "listen env a (emit (Spinner Listening) w) = (r, w1)"
    by (cases "listen env a (emit (Spinner Listening) w)")
  have "ext P w (emit (Spinner Listening) w)"
    by (simp add: ext_emit assms(2))
  moreover have "ext P (emit (Spinner Listening) w) w1"
    using ext_listen [of P "emit (Spinner Listening) w" env a] l assms(3-5) by simp
  ultimately have e1: "ext P w w1"
    by (rule ext_trans)
  have r: "r = (case transcriptions_create env (read a) of
                  Inl e \<Rightarrow> Inl e | Inr text \<Rightarrow> Inr (strip text))"
    using listen_result [of env a "emit (Spinner Listening) w"] l by simp
  show ?thesis
  proof (cases "transcriptions_create env (read a)")
    case (Inl e)
    then show ?thesis using Some l r e1 by (simp add: ask_def Let_def)
  next
    case (Inr raw)
    have "P (ChatResponse (strip raw))" using audio [OF Some Inr] .
    then have "ext P w (emit (ChatResponse (strip raw)) (emit (Spinner Reflecting) w1))"
      using e1 assms(2) by (simp add: ext_emit)
    then show ?thesis using Some l r Inr
      by (simp add: ask_def Let_def split: sum.splits option.splits)
  qed
qed

subsection \<open>The events of a whole run\<close>

lemma ext_handlers:
  assumes plain: "\<And>e. \<not> is_adapter_call e \<Longrightarrow> \<not> is_environ_get e \<Longrightarrow> e \<noteq> StError \<Longrightarrow> P e"
    and "\<And>p. P (Transcribe p)"
    and typed: "audio_file inp = None \<Longrightarrow> typed inp \<noteq> [] \<Longrightarrow> P (ChatResponse (strip (typed inp)))"
    and audio: "\<And>a raw. audio_file inp = Some a \<Longrightarrow> transcriptions_create env (read a) = Inr raw
                  \<Longrightarrow> P (ChatResponse (strip raw))"
    and synth: "\<And>t. P (Synthesize t (if startswith (lang_choice inp) Hindi then hi else en) True)"
  shows "ext P v (snd (finish (and_then (and_then (and_then
           (clear_chat inp (init_history (main_widgets v))) (ask env inp)) display)
           (voice_output env inp))))"
proof -
  have c: "ext P v (snd (clear_chat inp (init_history (main_widgets v))))"
    by (rule ext_clear_chat) (simp_all add: plain)
  have a: "\<And>u. ext P u (snd (ask env inp u))"
    by (rule ext_ask) (simp_all add: plain assms(2) typed audio)
  have d: "\<And>u. ext P u (snd (display u))"
    by (rule ext_display) (simp add: plain)
  have s: "\<And>u. ext P u (snd (voice_output env inp u))"
    by (rule ext_voice_output) (simp_all add: plain synth)
  show ?thesis
    by (intro ext_finish ext_and_then c a d s) (simp add: plain)
qed

lemma ext_script:
  assumes plain: "\<And>e. \<not> is_adapter_call e \<Longrightarrow> P e"
    and "\<And>p. P (Transcribe p)"
    and typed: "audio_file inp = None \<Longrightarrow> typed inp \<noteq> [] \<Longrightarrow> P (ChatResponse (strip (typed inp)))"
    and audio: "\<And>a raw. audio_file inp = Some a \<Longrightarrow> transcriptions_create env (read a) = Inr raw
                  \<Longrightarrow> P (ChatResponse (strip raw))"
    and synth: "\<And>t. P (Synthesize t (if startswith (lang_choice inp) Hindi then hi else en) True)"
  shows "ext P w (snd (script env inp w))"
proof (cases "key_ok env")
  case False
  have "ext P w (w\<lparr>trace := trace w @ header_events @ [StError]\<rparr>)"
    by (simp add: ext_iff header_events_def plain)
  then show ?thesis by (simp add: script_missing_key [OF False])
next
  case True
  define v where "v = emit (NewClient (case environ env OPENAI_API_KEY of None \<Rightarrow> [] | Some k \<Rightarrow> k))
                   (emit (EnvironGet OPENAI_API_KEY) (page_header w))"
  have "ext P w v"
    by (simp add: v_def page_header_def ext_emit plain)
  moreover have "ext P v (snd (script env inp w))"
    unfolding script_key_ok [OF True] v_def [symmetric]
    by (rule ext_handlers) (simp_all add: assms)
  ultimately show ?thesis by (rule ext_trans)
qed

section \<open>The session log\<close>

subsection \<open>Clearing\<close>

text \<open>
  C3.  Pressing the clear button empties the session log, whatever it held before: the
  run ends in the rerun request with \<open>chat_history\<close> set to the empty list.  The button
  exists only in a run that got past the key check, so the key is taken to be set.
\<close>

theorem clear_empties_log:
  assumes "key_ok env" and "clear inp"
  shows "fst (script env inp w) = Rerun \<and> session (snd (script env inp w)) = Some [] \<and>
         turns (snd (script env inp w)) = []"
  using assms(2)
  by (simp add: script_key_ok [OF assms(1)] clear_chat_def turns_def Let_def)

theorem clear_empties_log_witness:
  "key_ok env_ok \<and> clear (idle\<lparr>clear := True\<rparr>) \<and> turns w_one \<noteq> [] \<and>
   fst (script env_ok (idle\<lparr>clear := True\<rparr>) w_one) = Rerun \<and>
   turns (snd (script env_ok (idle\<lparr>clear := True\<rparr>) w_one)) = []"
proof -
  have k: "key_ok env_ok"
    by (simp add: key_ok_def env_ok_def ascii_def)
  have c: "clear (idle\<lparr>clear := True\<rparr>)"
    by simp
  have t: "turns w_one \<noteq> []"
    by (simp add: turns_def w_one_def)
  from clear_empties_log [OF k c, of w_one] k c t show ?thesis
    by simp
qed

subsection \<open>Append-only\<close>

text \<open>
  C9.  Across a run the session log is append-only, except for an explicit full clear.
  A run in which the clear button is not pressed keeps every earlier turn, unchanged and
  in order, and adds at most one turn, at the end; it adds none when the ask button is
  not pressed either.  The log is emptied only by a run in which the clear button is
  pressed, and such a run leaves it empty.  A run that stops at the key check, where no
  button exists, leaves the log as it was.
\<close>

theorem log_append_only:
  "(\<not> clear inp \<longrightarrow>
      turns (snd (script env inp w)) = turns w
      \<or> (\<exists>t. turns (snd (script env inp w)) = turns w @ [t])) \<and>
   (\<not> clear inp \<and> \<not> run inp \<longrightarrow> turns (snd (script env inp w)) = turns w) \<and>
   (key_ok env \<and> clear inp \<longrightarrow> turns (snd (script env inp w)) = []) \<and>
   (\<not> key_ok env \<longrightarrow> turns (snd (script env inp w)) = turns w)"
proof (intro conjI impI)
  have missing: "turns (snd (script env inp w)) = turns w" if "\<not> key_ok env"
    using that by (simp add: script_missing_key turns_def)
  have entered: "turns (snd (script env inp w)) = turns (snd (ask env inp (entry env w)))"
    if "key_ok env" and "\<not> clear inp"
    using that by (simp add: script_entry turns_def session_after_ask)
  have start: "turns (entry env w) = turns w"
    by (simp add: turns_def)
  show "turns (snd (script env inp w)) = turns w
        \<or> (\<exists>t. turns (snd (script env inp w)) = turns w @ [t])"
    if "\<not> clear inp"
  proof (cases "key_ok env")
    case True
    then show ?thesis
      using entered [OF True that] turns_ask [of env inp "entry env w"] start by simp
  next
    case False
    then show ?thesis by (simp add: missing)
  qed
  show "turns (snd (script env inp w)) = turns w" if h: "\<not> clear inp \<and> \<not> run inp"
  proof (cases "key_ok env")
    case True
    have "ask env inp (entry env w) = (None, entry env w)"
      using h by (simp add: ask_def)
    then show ?thesis
      using entered [OF True] h start by simp
  next
    case False
    then show ?thesis by (simp add: missing)
  qed
  show "turns (snd (script env inp w)) = []" if "key_ok env \<and> clear inp"
    using that by (simp add: script_key_ok clear_chat_def turns_def Let_def)
  show "turns (snd (script env inp w)) = turns w" if "\<not> key_ok env"
    using that by (rule missing)
qed

theorem log_append_only_witness:
  "turns w_one \<noteq> [] \<and> key_ok env_ok \<and> \<not> key_ok env_no_key \<and>
   \<not> clear ask_padded \<and> run ask_padded \<and>
   turns (snd (script env_ok ask_padded w_one)) =
     turns w_one @ [(ascii ''hi'', ascii ''Try slow breathing.'')] \<and>
   \<not> clear idle \<and> \<not> run idle \<and>
   turns (snd (script env_ok idle w_one)) = turns w_one \<and>
   clear (idle\<lparr>clear := True\<rparr>) \<and>
   turns (snd (script env_ok (idle\<lparr>clear := True\<rparr>) w_one)) = [] \<and>
   turns (snd (script env_no_key (idle\<lparr>clear := True\<rparr>) w_one)) = turns w_one"
proof -
  have k: "key_ok env_ok" "\<not> key_ok env_no_key"
    by (simp_all add: key_ok_def env_ok_def env_no_key_def ascii_def)
  have i: "\<not> clear ask_padded" "run ask_padded" "\<not> clear idle" "\<not> run idle"
      "clear (idle\<lparr>clear := True\<rparr>)"
    by (simp_all add: ask_padded_def idle_def)
  have t: "turns w_one \<noteq> []"
    by (simp add: turns_def w_one_def)
  have a: "turns (snd (script env_ok ask_padded w_one)) =
             turns w_one @ [(ascii ''hi'', ascii ''Try slow breathing.'')]"
    by (simp add: run_defs example_defs)
  from log_append_only [where env = env_ok and inp = ask_padded and w = w_one]
       log_append_only [where env = env_ok and inp = idle and w = w_one]
       log_append_only [where env = env_ok and inp = "idle\<lparr>clear := True\<rparr>" and w = w_one]
       log_append_only [where env = env_no_key and inp = "idle\<lparr>clear := True\<rparr>" and w = w_one]
       k i t a
  show ?thesis by simp
qed

section \<open>Asking with nothing entered\<close>

text \<open>
  C4.  When the ask button is pressed with no upload and no typed text, the run shows the
  warning and stops: none of the three adapters is called, and the session log and the
  files are as before.
\<close>

theorem no_input_aborts:
  assumes "key_ok env" and "run inp" and "\<not> clear inp"
    and "audio_file inp = None" and "typed inp = []"
  shows "fst (script env inp w) = Stopped \<and>
         StWarning \<in> set (new_events w (snd (script env inp w))) \<and>
         (\<forall>e \<in> set (new_events w (snd (script env inp w))). \<not> is_adapter_call e) \<and>
         turns (snd (script env inp w)) = turns w \<and>
         files (snd (script env inp w)) = files w"
proof -
  have s: "script env inp w = (Stopped, emit StWarning (entry env w))"
    using assms by (simp add: script_entry ask_def)
  have "trace (emit StWarning (entry env w)) = trace w @ (entry_events env @ [StWarning])"
    by simp
  then have "new_events w (emit StWarning (entry env w)) = entry_events env @ [StWarning]"
    by (rule new_events_append)
  then show ?thesis
    using no_adapter_entry [of env] by (simp add: s turns_def)
qed

theorem no_input_aborts_witness:
  "key_ok env_ok \<and> run ask_nothing \<and> \<not> clear ask_nothing \<and>
   audio_file ask_nothing = None \<and> typed ask_nothing = [] \<and>
   fst (script env_ok ask_nothing w_one) = Stopped \<and>
   StWarning \<in> set (new_events w_one (snd (script env_ok ask_nothing w_one))) \<and>
   filter is_adapter_call (new_events w_one (snd (script env_ok ask_nothing w_one))) = [] \<and>
   turns (snd (script env_ok ask_nothing w_one)) = turns w_one"
proof -
  have k: "key_ok env_ok"
    by (simp add: key_ok_def env_ok_def ascii_def)
  have i: "run ask_nothing" "\<not> clear ask_nothing" "audio_file ask_nothing = None"
      "typed ask_nothing = []"
    by (simp_all add: ask_nothing_def idle_def)
  from no_input_aborts [OF k i, of w_one] k i show ?thesis
    by (simp add: filter_empty_conv)
qed

section \<open>The key check\<close>

text \<open>
  C8, as amended.  If the key variable is absent or empty, the run reads it once, reports
  the error and stops; before the check it has only rendered the page settings, the style
  sheet and the banner, and after the report it does nothing.  If the variable is set to
  a non-empty value, the run goes on (the client is created with that value), reports no
  error, and reads the variable exactly once.
\<close>

theorem startup_key_check:
  "(\<not> key_ok env \<longrightarrow>
      script env inp w =
        (Stopped, w\<lparr>trace := trace w @
           [SetPageConfig, Markdown Style, Markdown Banner, EnvironGet OPENAI_API_KEY, StError]\<rparr>)) \<and>
   (key_ok env \<longrightarrow>
      (\<exists>k evs. environ env OPENAI_API_KEY = Some k \<and> k \<noteq> [] \<and>
         new_events w (snd (script env inp w)) =
           [SetPageConfig, Markdown Style, Markdown Banner, EnvironGet OPENAI_API_KEY, NewClient k] @ evs \<and>
         (\<forall>e \<in> set evs. \<not> is_environ_get e \<and> e \<noteq> StError)) \<and>
      length (filter is_environ_get (new_events w (snd (script env inp w)))) = 1)"
proof (intro conjI impI)
  assume "\<not> key_ok env"
  then show "script env inp w =
        (Stopped, w\<lparr>trace := trace w @
           [SetPageConfig, Markdown Style, Markdown Banner, EnvironGet OPENAI_API_KEY, StError]\<rparr>)"
    by (simp add: script_missing_key header_events_def)
next
  assume ok: "key_ok env"
  then obtain k where k: "environ env OPENAI_API_KEY = Some k" "k \<noteq> []"
    by (auto simp: key_ok_def split: option.splits)
  define v where "v = emit (NewClient (case environ env OPENAI_API_KEY of None \<Rightarrow> [] | Some k \<Rightarrow> k))
                   (emit (EnvironGet OPENAI_API_KEY) (page_header w))"
  have tv: "trace v = trace w @
      [SetPageConfig, Markdown Style, Markdown Banner, EnvironGet OPENAI_API_KEY, NewClient k]"
    by (simp add: v_def page_header_def k)
  have "ext (\<lambda>e. \<not> is_environ_get e \<and> e \<noteq> StError) v (snd (script env inp w))"
    unfolding script_key_ok [OF ok] v_def [symmetric]
    by (rule ext_handlers) auto
  then obtain evs where evs: "trace (snd (script env inp w)) = trace v @ evs"
      "list_all (\<lambda>e. \<not> is_environ_get e \<and> e \<noteq> StError) evs"
    by (auto simp: ext_iff)
  have n: "new_events w (snd (script env inp w)) =
      [SetPageConfig, Markdown Style, Markdown Banner, EnvironGet OPENAI_API_KEY, NewClient k] @ evs"
    by (rule new_events_append) (simp add: evs tv)
  have f: "filter is_environ_get evs = []"
    using evs(2) by (auto simp: list_all_iff filter_empty_conv)
  show "\<exists>k evs. environ env OPENAI_API_KEY = Some k \<and> k \<noteq> [] \<and>
         new_events w (snd (script env inp w)) =
           [SetPageConfig, Markdown Style, Markdown Banner, EnvironGet OPENAI_API_KEY, NewClient k] @ evs \<and>
         (\<forall>e \<in> set evs. \<not> is_environ_get e \<and> e \<noteq> StError)"
    using k n evs(2) by (auto simp: list_all_iff)
  show "length (filter is_environ_get (new_events w (snd (script env inp w)))) = 1"
    by (simp add: n f)
qed

theorem startup_key_check_witness:
  "\<not> key_ok env_no_key \<and> fst (script env_no_key idle w_new) = Stopped \<and>
   new_events w_new (snd (script env_no_key idle w_new)) =
     [SetPageConfig, Markdown Style, Markdown Banner, EnvironGet OPENAI_API_KEY, StError] \<and>
   key_ok env_ok \<and>
   length (filter is_environ_get (new_events w_new (snd (script env_ok idle w_new)))) = 1"
proof -
  have n: "\<not> key_ok env_no_key"
    by (simp add: key_ok_def env_no_key_def env_ok_def)
  have k: "key_ok env_ok"
    by (simp add: key_ok_def env_ok_def ascii_def)
  from startup_key_check [of env_no_key idle w_new] n
  have "script env_no_key idle w_new =
        (Stopped, w_new\<lparr>trace := trace w_new @
           [SetPageConfig, Markdown Style, Markdown Banner, EnvironGet OPENAI_API_KEY, StError]\<rparr>)"
    by simp
  moreover from startup_key_check [of env_ok idle w_new] k
  have "length (filter is_environ_get (new_events w_new (snd (script env_ok idle w_new)))) = 1"
    by simp
  ultimately show ?thesis
    using n k by (simp add: new_events_def w_new_def)
qed

text \<open>
  The claim as stated fails where the variable is present with an empty value: the run
  reports the error and stops.
\<close>

theorem empty_key_counterexample:
  "environ env_empty_key OPENAI_API_KEY = Some [] \<and>
   fst (script env_empty_key idle w_new) = Stopped \<and>
   StError \<in> set (new_events w_new (snd (script env_empty_key idle w_new)))"
  by (simp add: run_defs example_defs)

section \<open>A completed ask cycle\<close>

subsection \<open>Typed input\<close>

lemma typed_turn:
  assumes "key_ok env" and "run inp" and "\<not> clear inp"
    and "audio_file inp = None" and "typed inp \<noteq> []"
    and "chat_response env (strip (typed inp)) = Inr T"
  shows "turns (snd (script env inp w)) = turns w @ [(strip (typed inp), T)]"
proof -
  have "session (snd (script env inp w)) = session (snd (ask env inp (entry env w)))"
    by (simp add: script_entry [OF assms(1,3)] session_after_ask)
  then show ?thesis
    using assms by (simp add: ask_typed turns_def)
qed

text \<open>
  C1, as amended.  After an ask cycle with typed input (no upload) in which the response
  adapter returns \<open>T\<close>, the session log is the earlier log followed by one turn, the pair
  of the typed text with the whitespace at its two ends removed and \<open>T\<close>.  So the first
  component is exactly the typed text when that text neither starts nor ends with
  whitespace.
\<close>

theorem typed_turn_logged:
  assumes "key_ok env" and "run inp" and "\<not> clear inp"
    and "audio_file inp = None" and "typed inp \<noteq> []"
    and "chat_response env (strip (typed inp)) = Inr T"
  shows "turns (snd (script env inp w)) = turns w @ [(strip (typed inp), T)] \<and>
         last (turns (snd (script env inp w))) = (strip (typed inp), T) \<and>
         (\<not> isspace (hd (typed inp)) \<and> \<not> isspace (last (typed inp)) \<longrightarrow>
            last (turns (snd (script env inp w))) = (typed inp, T))"
  using typed_turn [OF assms, of w] assms(5) by (simp add: strip_id)

theorem typed_turn_logged_witness:
  "key_ok env_exam \<and> run ask_exam \<and> \<not> clear ask_exam \<and> audio_file ask_exam = None \<and>
   typed ask_exam = ascii ''I feel anxious before exams'' \<and>
   chat_response env_exam (strip (typed ask_exam)) = Inr exam_reply \<and>
   \<not> isspace (hd (typed ask_exam)) \<and> \<not> isspace (last (typed ask_exam)) \<and>
   turns (snd (script env_exam ask_exam w_one)) =
     turns w_one @ [(ascii ''I feel anxious before exams'', exam_reply)]"
proof -
  have k: "key_ok env_exam"
    by (simp add: key_ok_def env_exam_def env_ok_def ascii_def)
  have i: "run ask_exam" "\<not> clear ask_exam" "audio_file ask_exam = None"
    by (simp_all add: ask_exam_def idle_def)
  have t: "typed ask_exam = ascii ''I feel anxious before exams''"
    by (simp add: ask_exam_def)
  have n: "typed ask_exam \<noteq> []"
    by (simp add: t ascii_def)
  have s: "\<not> isspace (hd (typed ask_exam))" "\<not> isspace (last (typed ask_exam))"
    by (simp_all add: t ascii_def isspace_def)
  have e: "strip exam_reply = exam_reply"
    by (simp add: exam_reply_def strip_def isspace_def ascii_def)
  have c: "chat_response env_exam (strip (typed ask_exam)) = Inr exam_reply"
    by (simp add: chat_response_def env_exam_def e)
  have st: "strip (typed ask_exam) = typed ask_exam"
    by (rule strip_id [OF n s])
  from typed_turn_logged [OF k i n c, of w_one] s
  have "turns (snd (script env_exam ask_exam w_one)) = turns w_one @ [(typed ask_exam, exam_reply)]"
    by (simp add: st)
  then show ?thesis
    using k i t s c by simp
qed

text \<open>
  The claim as stated fails for typed text with whitespace at an end: for the input
  \<open>" hi"\<close> the logged turn starts with \<open>"hi"\<close>.
\<close>

theorem typed_turn_untrimmed_counterexample:
  "audio_file ask_padded = None \<and> typed ask_padded = ascii '' hi'' \<and>
   chat_response env_ok (strip (typed ask_padded)) = Inr (ascii ''Try slow breathing.'') \<and>
   last (turns (snd (script env_ok ask_padded w_one))) = (ascii ''hi'', ascii ''Try slow breathing.'') \<and>
   last (turns (snd (script env_ok ask_padded w_one))) \<noteq> (typed ask_padded, ascii ''Try slow breathing.'')"
  by (simp add: run_defs example_defs)

subsection \<open>Spoken input\<close>

lemma audio_turn:
  assumes "key_ok env" and "run inp" and "\<not> clear inp"
    and "audio_file inp = Some a"
    and "transcribe_with_whisper env ((files w)(mktemp env (name a) \<mapsto> read a)) (mktemp env (name a)) = Inr u"
    and "chat_response env u = Inr b"
  shows "turns (snd (script env inp w)) = turns w @ [(u, b)] \<and>
         ChatResponse u \<in> set (new_events w (snd (script env inp w)))"
proof -
  define r where "r = ask env inp (entry env w)"
  define w1 where "w1 = snd (listen env a (emit (Spinner Listening) (entry env w)))"
  have f: "fst (listen env a (emit (Spinner Listening) (entry env w))) = Inr u"
    using assms(5) by (simp add: listen_fst)
  have r: "r = (None, (emit (ChatResponse u) (emit (Spinner Reflecting) w1))
                  \<lparr>session := Some (turns w @ [(u, b)])\<rparr>)"
    using assms(2,4,6) f by (simp add: r_def w1_def ask_audio)
  have s: "script env inp w = finish (and_then (and_then r display) (voice_output env inp))"
    by (simp add: script_entry [OF assms(1,3)] r_def)
  have "session (snd (script env inp w)) = session (snd r)"
    by (simp add: s session_after_ask)
  then have t: "turns (snd (script env inp w)) = turns w @ [(u, b)]"
    by (simp add: r turns_def)
  obtain evs where "trace (snd (script env inp w)) = trace (snd r) @ evs"
    using trace_after_ask [of r env inp] s by auto
  then have "trace (snd (script env inp w)) =
      trace w @ (entry_events env @
       [Spinner Listening, TempFile (mktemp env (name a)), Transcribe (mktemp env (name a)),
        Remove (mktemp env (name a)), Spinner Reflecting, ChatResponse u] @ evs)"
    by (simp add: r w1_def listen_trace)
  then have "new_events w (snd (script env inp w)) = entry_events env @
       [Spinner Listening, TempFile (mktemp env (name a)), Transcribe (mktemp env (name a)),
        Remove (mktemp env (name a)), Spinner Reflecting, ChatResponse u] @ evs"
    by (rule new_events_append)
  then show ?thesis using t by simp
qed

lemma typed_ignored:
  assumes "audio_file inp = Some a"
  shows "script env (inp\<lparr>typed := t\<rparr>) w = script env inp w"
proof -
  have "ask env (inp\<lparr>typed := t\<rparr>) = ask env inp"
    using assms by (auto simp: ask_def Let_def fun_eq_iff)
  moreover have "voice_output env (inp\<lparr>typed := t\<rparr>) = voice_output env inp"
    by (simp add: voice_output_def fun_eq_iff Let_def cong: option.case_cong if_cong)
  moreover have "clear_chat (inp\<lparr>typed := t\<rparr>) = clear_chat inp"
    by (auto simp: clear_chat_def fun_eq_iff)
  ultimately show ?thesis by (simp add: script_def)
qed

text \<open>
  C10.  When an upload is supplied, the typed text has no effect on the run: replacing it
  by any other text gives the same outcome, log, files and events.  In a completed cycle
  the response adapter is called with the transcript, and the appended turn is the pair of
  the transcript and the reply.
\<close>

theorem audio_replaces_typed:
  assumes "audio_file inp = Some a"
  shows "script env (inp\<lparr>typed := t\<rparr>) w = script env inp w \<and>
         (key_ok env \<and> run inp \<and> \<not> clear inp \<and>
          transcribe_with_whisper env ((files w)(mktemp env (name a) \<mapsto> read a))
            (mktemp env (name a)) = Inr u \<and>
          chat_response env u = Inr b \<longrightarrow>
            turns (snd (script env inp w)) = turns w @ [(u, b)] \<and>
            ChatResponse u \<in> set (new_events w (snd (script env inp w))))"
  using typed_ignored [OF assms] audio_turn [OF _ _ _ assms] by blast

theorem audio_replaces_typed_witness:
  "audio_file ask_clip = Some clip \<and> typed ask_clip = ascii ''ignored'' \<and>
   key_ok env_ok \<and> run ask_clip \<and> \<not> clear ask_clip \<and>
   transcribe_with_whisper env_ok ((files w_one)(mktemp env_ok (name clip) \<mapsto> read clip))
     (mktemp env_ok (name clip)) = Inr (ascii ''I cannot sleep'') \<and>
   chat_response env_ok (ascii ''I cannot sleep'') = Inr (ascii ''Try slow breathing.'') \<and>
   script env_ok (ask_clip\<lparr>typed := ascii ''something else''\<rparr>) w_one = script env_ok ask_clip w_one \<and>
   turns (snd (script env_ok ask_clip w_one)) =
     turns w_one @ [(ascii ''I cannot sleep'', ascii ''Try slow breathing.'')] \<and>
   ChatResponse (ascii ''I cannot sleep'') \<in> set (new_events w_one (snd (script env_ok ask_clip w_one)))"
proof -
  have a: "audio_file ask_clip = Some clip" "typed ask_clip = ascii ''ignored''"
    by (simp_all add: ask_clip_def)
  have k: "key_ok env_ok"
    by (simp add: key_ok_def env_ok_def ascii_def)
  have i: "run ask_clip" "\<not> clear ask_clip"
    by (simp_all add: ask_clip_def idle_def)
  have u: "transcribe_with_whisper env_ok ((files w_one)(mktemp env_ok (name clip) \<mapsto> read clip))
     (mktemp env_ok (name clip)) = Inr (ascii ''I cannot sleep'')"
    by (simp add: transcribe_with_whisper_def env_ok_def strip_def isspace_def ascii_def)
  have b: "chat_response env_ok (ascii ''I cannot sleep'') = Inr (ascii ''Try slow breathing.'')"
    by (simp add: chat_response_def env_ok_def strip_def isspace_def ascii_def)
  from audio_replaces_typed [OF a(1), of env_ok "ascii ''something else''" w_one
      "ascii ''I cannot sleep''" "ascii ''Try slow breathing.''"] a k i u b
  show ?thesis by simp
qed

section \<open>A failing adapter\<close>

text \<open>
  C7.  If the transcription adapter or the response adapter raises in an ask cycle, the
  run ends with that exception: the session log is as it was before the run, and the run
  contains no call of the synthesis adapter.
\<close>

theorem adapter_failure_aborts:
  assumes "key_ok env" and "run inp" and "\<not> clear inp"
    and fail:
      "(audio_file inp = Some a \<and>
          transcribe_with_whisper env ((files w)(mktemp env (name a) \<mapsto> read a)) (mktemp env (name a)) = Inl e)
       \<or> (audio_file inp = None \<and> typed inp \<noteq> [] \<and> chat_response env (strip (typed inp)) = Inl e)
       \<or> (audio_file inp = Some a \<and>
          transcribe_with_whisper env ((files w)(mktemp env (name a) \<mapsto> read a)) (mktemp env (name a)) = Inr u \<and>
          chat_response env u = Inl e)"
  shows "fst (script env inp w) =
           Raised (if audio_file inp = Some a \<and>
                      transcribe_with_whisper env ((files w)(mktemp env (name a) \<mapsto> read a))
                        (mktemp env (name a)) = Inl e
                   then Transcription else Completion) e \<and>
         turns (snd (script env inp w)) = turns w \<and>
         (\<forall>ev \<in> set (new_events w (snd (script env inp w))). \<not> is_synthesis ev)"
proof -
  note s = script_entry [OF assms(1,3)]
  define w1 where "w1 = snd (listen env a (emit (Spinner Listening) (entry env w)))"
  have tw1: "trace w1 = trace w @ (entry_events env @ [Spinner Listening,
       TempFile (mktemp env (name a)), Transcribe (mktemp env (name a)), Remove (mktemp env (name a))])"
    by (simp add: w1_def listen_trace)
  have sw1: "session w1 = Some (turns w)"
    by (simp add: w1_def)
  define tw where "tw = transcribe_with_whisper env ((files w)(mktemp env (name a) \<mapsto> read a))
                          (mktemp env (name a))"
  have l: "fst (listen env a (emit (Spinner Listening) (entry env w))) = tw"
    by (simp add: listen_fst tw_def)
  from fail consider
      (T) "audio_file inp = Some a" "tw = Inl e"
    | (C1) "audio_file inp = None" "typed inp \<noteq> []" "chat_response env (strip (typed inp)) = Inl e"
    | (C2) "audio_file inp = Some a" "tw = Inr u" "chat_response env u = Inl e"
    by (auto simp: tw_def)
  then show ?thesis
  proof cases
    case T
    have r: "script env inp w = (Raised Transcription e, w1)"
      using T assms(2) l by (simp add: s ask_audio w1_def)
    have "new_events w w1 = entry_events env @ [Spinner Listening,
       TempFile (mktemp env (name a)), Transcribe (mktemp env (name a)), Remove (mktemp env (name a))]"
      using tw1 by (rule new_events_append)
    then show ?thesis
      using sw1 no_synthesis_entry [of env] T by (simp add: r turns_def tw_def [symmetric])
  next
    case C1
    define v where "v = emit (ChatResponse (strip (typed inp))) (emit (Spinner Reflecting) (entry env w))"
    have r: "script env inp w = (Raised Completion e, v)"
      using C1 assms(2) by (simp add: s ask_typed v_def)
    have "trace v = trace w @ (entry_events env @ [Spinner Reflecting, ChatResponse (strip (typed inp))])"
      by (simp add: v_def)
    then have "new_events w v = entry_events env @ [Spinner Reflecting, ChatResponse (strip (typed inp))]"
      by (rule new_events_append)
    moreover have "session v = Some (turns w)"
      by (simp add: v_def)
    ultimately show ?thesis
      using no_synthesis_entry [of env] C1 by (simp add: r turns_def)
  next
    case C2
    define v where "v = emit (ChatResponse u) (emit (Spinner Reflecting) w1)"
    have r: "script env inp w = (Raised Completion e, v)"
      using C2 assms(2) l by (simp add: s ask_audio v_def w1_def)
    have "trace v = trace w @ (entry_events env @ [Spinner Listening,
       TempFile (mktemp env (name a)), Transcribe (mktemp env (name a)), Remove (mktemp env (name a)),
       Spinner Reflecting, ChatResponse u])"
      by (simp add: v_def tw1)
    then have "new_events w v = entry_events env @ [Spinner Listening,
       TempFile (mktemp env (name a)), Transcribe (mktemp env (name a)), Remove (mktemp env (name a)),
       Spinner Reflecting, ChatResponse u]"
      by (rule new_events_append)
    moreover have "session v = Some (turns w)"
      by (simp add: v_def sw1)
    ultimately show ?thesis
      using no_synthesis_entry [of env] C2 by (simp add: r turns_def tw_def [symmetric])
  qed
qed

theorem adapter_failure_aborts_witness:
  "key_ok env_whisper_down \<and> key_ok env_chat_down \<and> run ask_clip \<and> \<not> clear ask_clip \<and>
   run ask_padded \<and> \<not> clear ask_padded \<and>
   audio_file ask_clip = Some clip \<and>
   transcribe_with_whisper env_whisper_down
     ((files w_one)(mktemp env_whisper_down (name clip) \<mapsto> read clip))
     (mktemp env_whisper_down (name clip)) = Inl ''APIConnectionError'' \<and>
   fst (script env_whisper_down ask_clip w_one) = Raised Transcription ''APIConnectionError'' \<and>
   turns (snd (script env_whisper_down ask_clip w_one)) = turns w_one \<and>
   filter is_synthesis (new_events w_one (snd (script env_whisper_down ask_clip w_one))) = [] \<and>
   audio_file ask_padded = None \<and> typed ask_padded \<noteq> [] \<and>
   chat_response env_chat_down (strip (typed ask_padded)) = Inl ''RateLimitError'' \<and>
   fst (script env_chat_down ask_padded w_one) = Raised Completion ''RateLimitError'' \<and>
   turns (snd (script env_chat_down ask_padded w_one)) = turns w_one \<and>
   filter is_synthesis (new_events w_one (snd (script env_chat_down ask_padded w_one))) = []"
proof -
  have k: "key_ok env_whisper_down" "key_ok env_chat_down"
    by (simp_all add: key_ok_def env_whisper_down_def env_chat_down_def env_ok_def ascii_def)
  have i: "run ask_clip" "\<not> clear ask_clip" "run ask_padded" "\<not> clear ask_padded"
      "audio_file ask_clip = Some clip" "audio_file ask_padded = None" "typed ask_padded \<noteq> []"
    by (simp_all add: ask_clip_def ask_padded_def idle_def ascii_def)
  have t: "transcribe_with_whisper env_whisper_down
     ((files w_one)(mktemp env_whisper_down (name clip) \<mapsto> read clip))
     (mktemp env_whisper_down (name clip)) = Inl ''APIConnectionError''"
    by (simp add: transcribe_with_whisper_def env_whisper_down_def)
  have c: "chat_response env_chat_down (strip (typed ask_padded)) = Inl ''RateLimitError''"
    by (simp add: chat_response_def env_chat_down_def)
  have 1: "fst (script env_whisper_down ask_clip w_one) = Raised Transcription ''APIConnectionError'' \<and>
      turns (snd (script env_whisper_down ask_clip w_one)) = turns w_one \<and>
      filter is_synthesis (new_events w_one (snd (script env_whisper_down ask_clip w_one))) = []"
    using adapter_failure_aborts [OF k(1) i(1,2), of clip w_one "''APIConnectionError''" "[]"] i(5) t
    by (simp add: filter_empty_conv)
  have 2: "fst (script env_chat_down ask_padded w_one) = Raised Completion ''RateLimitError'' \<and>
      turns (snd (script env_chat_down ask_padded w_one)) = turns w_one \<and>
      filter is_synthesis (new_events w_one (snd (script env_chat_down ask_padded w_one))) = []"
    using adapter_failure_aborts [OF k(2) i(3,4), of clip w_one "''RateLimitError''" "[]"] i(6,7) c
    by (simp add: filter_empty_conv)
  show ?thesis
    using k i t c 1 2 by simp
qed

section \<open>The temporary file\<close>

text \<open>
  C5, as amended.  For every upload, the run creates the temporary file, calls the
  transcription adapter on it and then attempts to remove it, exactly once and after the
  adapter has returned or raised, whatever the adapter's result.  When the removal succeeds
  the file no longer exists, after the block and at the end of the run; a removal that
  fails is ignored and leaves the file in place.
\<close>

theorem temp_file_removed:
  "fst (listen env a w) =
     transcribe_with_whisper env ((files w)(mktemp env (name a) \<mapsto> read a)) (mktemp env (name a)) \<and>
   new_events w (snd (listen env a w)) =
     [TempFile (mktemp env (name a)), Transcribe (mktemp env (name a)), Remove (mktemp env (name a))] \<and>
   (\<not> remove_fails env (mktemp env (name a)) \<longrightarrow>
      files (snd (listen env a w)) (mktemp env (name a)) = None) \<and>
   (remove_fails env (mktemp env (name a)) \<longrightarrow>
      files (snd (listen env a w)) (mktemp env (name a)) = Some (read a)) \<and>
   (key_ok env \<and> run inp \<and> \<not> clear inp \<and> audio_file inp = Some a \<and>
    \<not> remove_fails env (mktemp env (name a)) \<longrightarrow>
      files (snd (script env inp w)) (mktemp env (name a)) = None)"
proof (intro conjI impI)
  show "fst (listen env a w) =
     transcribe_with_whisper env ((files w)(mktemp env (name a) \<mapsto> read a)) (mktemp env (name a))"
    by (rule listen_fst)
  show "new_events w (snd (listen env a w)) =
     [TempFile (mktemp env (name a)), Transcribe (mktemp env (name a)), Remove (mktemp env (name a))]"
    by (rule new_events_append) (rule listen_trace)
  show "files (snd (listen env a w)) (mktemp env (name a)) = None"
    if "\<not> remove_fails env (mktemp env (name a))"
    using that by (simp add: listen_files)
  show "files (snd (listen env a w)) (mktemp env (name a)) = Some (read a)"
    if "remove_fails env (mktemp env (name a))"
    using that by (simp add: listen_files)
  show "files (snd (script env inp w)) (mktemp env (name a)) = None"
    if h: "key_ok env \<and> run inp \<and> \<not> clear inp \<and> audio_file inp = Some a \<and>
           \<not> remove_fails env (mktemp env (name a))"
  proof -
    have "files (snd (script env inp w)) = files (snd (ask env inp (entry env w)))"
      using h by (simp add: script_entry files_snd_and_then)
    then show ?thesis
      using h by (simp add: files_ask_audio listen_files)
  qed
qed

theorem temp_file_removed_witness:
  "\<not> remove_fails env_ok (mktemp env_ok (name clip)) \<and>
   \<not> remove_fails env_whisper_down (mktemp env_whisper_down (name clip)) \<and>
   remove_fails env_locked (mktemp env_locked (name clip)) \<and>
   key_ok env_ok \<and> key_ok env_whisper_down \<and>
   run ask_clip \<and> \<not> clear ask_clip \<and> audio_file ask_clip = Some clip \<and>
   fst (listen env_ok clip w_one) = Inr (ascii ''I cannot sleep'') \<and>
   fst (listen env_whisper_down clip w_one) = Inl ''APIConnectionError'' \<and>
   files (snd (listen env_ok clip w_one)) (mktemp env_ok (name clip)) = None \<and>
   files (snd (listen env_whisper_down clip w_one)) (mktemp env_whisper_down (name clip)) = None \<and>
   files (snd (listen env_locked clip w_one)) (mktemp env_locked (name clip)) = Some (read clip) \<and>
   files (snd (script env_ok ask_clip w_one)) (mktemp env_ok (name clip)) = None \<and>
   files (snd (script env_whisper_down ask_clip w_one)) (mktemp env_whisper_down (name clip)) = None"
proof -
  have r: "\<not> remove_fails env_ok (mktemp env_ok (name clip))"
      "\<not> remove_fails env_whisper_down (mktemp env_whisper_down (name clip))"
      "remove_fails env_locked (mktemp env_locked (name clip))"
    by (simp_all add: env_ok_def env_whisper_down_def env_locked_def)
  have k: "key_ok env_ok" "key_ok env_whisper_down"
    by (simp_all add: key_ok_def env_whisper_down_def env_ok_def ascii_def)
  have i: "run ask_clip" "\<not> clear ask_clip" "audio_file ask_clip = Some clip"
    by (simp_all add: ask_clip_def idle_def)
  have t: "transcribe_with_whisper env_ok ((files w_one)(mktemp env_ok (name clip) \<mapsto> read clip))
             (mktemp env_ok (name clip)) = Inr (ascii ''I cannot sleep'')"
      "transcribe_with_whisper env_whisper_down
             ((files w_one)(mktemp env_whisper_down (name clip) \<mapsto> read clip))
             (mktemp env_whisper_down (name clip)) = Inl ''APIConnectionError''"
    by (simp_all add: transcribe_with_whisper_def env_ok_def env_whisper_down_def
                      strip_def isspace_def ascii_def)
  from temp_file_removed [of env_ok clip w_one ask_clip]
       temp_file_removed [of env_whisper_down clip w_one ask_clip]
       temp_file_removed [of env_locked clip w_one ask_clip] r k i t
  show ?thesis by simp
qed

text \<open>
  The claim as stated fails where \<open>os.remove\<close> raises: the exception is swallowed and
  the file is still there after the transcription adapter has returned.
\<close>

theorem temp_file_left_counterexample:
  "fst (listen env_locked clip w_one) = Inr (ascii ''I cannot sleep'') \<and>
   files (snd (listen env_locked clip w_one)) (ascii ''/tmp/tmpq1.wav'') = Some (read clip) \<and>
   files w_one (ascii ''/tmp/tmpq1.wav'') = None \<and>
   files (snd (script env_locked ask_clip w_one)) (ascii ''/tmp/tmpq1.wav'') = Some (read clip)"
  by (simp add: run_defs example_defs)

section \<open>The language of the voice\<close>





section \<open>The text given to the response adapter\<close>

text \<open>
  C2, as amended.  Whenever a run calls the response adapter, one of two cases holds.
  The input came from an upload: the text passed is the transcript returned by the remote
  call with the whitespace at its two ends removed, and it is non-empty exactly when the
  transcript has a character that is not whitespace.  Or there is no upload and the text
  field is not empty: when the typed text has a character that is not whitespace, the
  text passed is that text with the whitespace at its two ends removed, and it is
  non-empty.
\<close>

theorem chat_response_text:
  assumes "ChatResponse u \<in> set (new_events w (snd (script env inp w)))"
  shows "(\<exists>a raw. audio_file inp = Some a \<and> transcriptions_create env (read a) = Inr raw \<and>
              u = strip raw \<and> (u \<noteq> [] \<longleftrightarrow> (\<exists>c \<in> set raw. \<not> isspace c)))
         \<or> (audio_file inp = None \<and> typed inp \<noteq> [] \<and>
              ((\<exists>c \<in> set (typed inp). \<not> isspace c) \<longrightarrow> u = strip (typed inp) \<and> u \<noteq> []))"
proof -
  have "ext (\<lambda>e. \<forall>u. e = ChatResponse u \<longrightarrow>
                (audio_file inp = None \<and> typed inp \<noteq> [] \<and> u = strip (typed inp))
                \<or> (\<exists>a raw. audio_file inp = Some a \<and> transcriptions_create env (read a) = Inr raw \<and>
                      u = strip raw))
          w (snd (script env inp w))"
    by (rule ext_script) auto
  from ext_new_events [OF this assms]
  have "(audio_file inp = None \<and> typed inp \<noteq> [] \<and> u = strip (typed inp))
        \<or> (\<exists>a raw. audio_file inp = Some a \<and> transcriptions_create env (read a) = Inr raw \<and>
              u = strip raw)"
    by simp
  then show ?thesis
  proof
    assume "audio_file inp = None \<and> typed inp \<noteq> [] \<and> u = strip (typed inp)"
    then show ?thesis
      using strip_nonempty_iff [of "typed inp"] by simp
  next
    assume "\<exists>a raw. audio_file inp = Some a \<and> transcriptions_create env (read a) = Inr raw \<and>
              u = strip raw"
    then obtain a raw where "audio_file inp = Some a"
        and "transcriptions_create env (read a) = Inr raw" and "u = strip raw"
      by blast
    then show ?thesis
      using strip_nonempty_iff [of raw] by simp
  qed
qed

theorem chat_response_text_witness:
  "ChatResponse (ascii ''hi'') \<in> set (new_events w_one (snd (script env_ok ask_padded w_one))) \<and>
   audio_file ask_padded = None \<and> typed ask_padded = ascii '' hi'' \<and>
   list_ex (\<lambda>c. \<not> isspace c) (typed ask_padded) \<and>
   ascii ''hi'' = strip (typed ask_padded) \<and> ascii ''hi'' \<noteq> [] \<and>
   ChatResponse (ascii ''I cannot sleep'') \<in> set (new_events w_one (snd (script env_ok ask_clip w_one))) \<and>
   audio_file ask_clip = Some clip \<and>
   transcriptions_create env_ok (read clip) = Inr (ascii '' I cannot sleep '') \<and>
   ascii ''I cannot sleep'' = strip (ascii '' I cannot sleep '') \<and>
   list_ex (\<lambda>c. \<not> isspace c) (ascii '' I cannot sleep '')"
proof -
  have t: "ChatResponse (ascii ''hi'') \<in> set (new_events w_one (snd (script env_ok ask_padded w_one)))"
    by (simp add: run_defs example_defs)
  have a: "ChatResponse (ascii ''I cannot sleep'')
             \<in> set (new_events w_one (snd (script env_ok ask_clip w_one)))"
    by (simp add: run_defs example_defs)
  have i: "audio_file ask_padded = None" "audio_file ask_clip = Some clip"
      "transcriptions_create env_ok (read clip) = Inr (ascii '' I cannot sleep '')"
      "typed ask_padded = ascii '' hi''"
    by (simp_all add: ask_padded_def ask_clip_def idle_def env_ok_def)
  have n: "list_ex (\<lambda>c. \<not> isspace c) (typed ask_padded)"
      "list_ex (\<lambda>c. \<not> isspace c) (ascii '' I cannot sleep '')"
    by (simp_all add: ask_padded_def isspace_def ascii_def)
  have b: "\<exists>c \<in> set (typed ask_padded). \<not> isspace c"
    using n(1) by (simp add: list_ex_iff)
  from chat_response_text [OF t] i(1) b
  have 1: "ascii ''hi'' = strip (typed ask_padded) \<and> ascii ''hi'' \<noteq> []"
    by (metis option.distinct(1))
  from chat_response_text [OF a] i(2,3)
  have 2: "ascii ''I cannot sleep'' = strip (ascii '' I cannot sleep '')" by auto
  show ?thesis
    using t a i n 1 2 by blast
qed

text \<open>
  The claim as stated fails for a clip without speech: the remote call returns the empty
  transcript, no line of the script tests the transcript, and the response adapter is
  called with the empty text.
\<close>

theorem chat_response_empty_counterexample:
  "run ask_clip \<and> audio_file ask_clip = Some clip \<and>
   transcriptions_create env_silent (read clip) = Inr [] \<and>
   ChatResponse [] \<in> set (new_events w_one (snd (script env_silent ask_clip w_one)))"
  by (simp add: run_defs example_defs)


end
